theory Spec2Isabelle
  imports Complex_Main "HOL-Library.Word"
begin

unbundle bit_operations_syntax

section \<open>The ProtocolData base class of the CAN bus driver\<close>

text \<open>
  A shallow embedding of \<^verbatim>\<open>modules/drivers/canbus/can_comm/protocol_data.h\<close>:
  the class template \<^verbatim>\<open>ProtocolData<SensorType>\<close> with its two static helpers
  \<^verbatim>\<open>BoundedValue\<close> and \<^verbatim>\<open>CalculateCheckSum\<close>, the two metadata queries and the
  default bodies of the virtual member functions.
\<close>

subsection \<open>Machine types and program state\<close>

type_synonym u8 = "8 word"
type_synonym u32 = "32 word"
type_synonym i32 = "32 word"  \<comment> \<open>\<^verbatim>\<open>int32_t\<close> and \<^verbatim>\<open>int\<close>, read with \<open>sint\<close>\<close>
type_synonym i64 = "64 word"  \<comment> \<open>read with \<open>sint\<close>\<close>

text \<open>
  A raw pointer is an address. The bytes that \<^verbatim>\<open>const uint8_t *\<close> and \<^verbatim>\<open>uint8_t *\<close>
  pointers refer to live in a byte memory, the records that \<^verbatim>\<open>SensorType *\<close> pointers
  refer to in a second store; an address that is not mapped (the null pointer, or one past
  a buffer) cannot be read.
\<close>

type_synonym addr = nat

record 's state =
  mem :: "addr \<rightharpoonup> u8"
  sensors :: "addr \<rightharpoonup> 's"

text \<open>
  C++ gives no meaning to a read through an unmapped pointer; the model makes it a value.
  A call returns \<open>Inl\<close> of the fault, or \<open>Inr\<close> of what it returns and the state it leaves.
\<close>

datatype fault = OutOfBounds

text \<open>\<^verbatim>\<open>struct timeval\<close>, the arrival time of a frame.\<close>

record timeval =
  tv_sec :: i64
  tv_usec :: i64

text \<open>
  The only data member is \<^verbatim>\<open>const int32_t data_length_ = CANBUS_MESSAGE_LENGTH\<close>.
  (Isabelle takes no name that ends in an underscore, so the field is \<open>data_length\<close>.)
  A derived class is an extension of this record.
\<close>

record ProtocolData =
  data_length :: i32

text \<open>
  Modelled from the spec: the constant \<^verbatim>\<open>CANBUS_MESSAGE_LENGTH\<close> is declared in
  \<^verbatim>\<open>modules/drivers/canbus/common/canbus_consts.h\<close>, which is not among the sources. The
  specification gives the default frame length as the standard CAN payload size, 8 bytes.
\<close>

definition CANBUS_MESSAGE_LENGTH :: i32 where
  "CANBUS_MESSAGE_LENGTH = 8"

text \<open>\<^verbatim>\<open>ProtocolData() = default\<close>: the default member initializer sets the length.\<close>

definition ProtocolData_default :: ProtocolData where
  "ProtocolData_default = \<lparr> data_length = CANBUS_MESSAGE_LENGTH \<rparr>"

subsection \<open>BoundedValue\<close>

text \<open>
  \<^verbatim>\<open>template <typename T> static T BoundedValue(T lower, T upper, T val)\<close>.
  The type \<open>T\<close> is any type with the comparisons \<open><\<close> and \<open>>\<close>, where \<open>a > b\<close> is
  \<open>b < a\<close>. Nothing more is asked of the comparison here: \<open>T\<close> may be an integer type,
  which is totally ordered, or a floating-point type, which is not.
\<close>

definition BoundedValue :: "'a::ord \<Rightarrow> 'a \<Rightarrow> 'a \<Rightarrow> 'a" where
  "BoundedValue lower upper val =
     (if lower > upper then val
      else if val < lower then lower
      else if val > upper then upper
      else val)"

text \<open>
  The values of a floating-point type \<open>T\<close>, as far as the comparisons see them: a value is
  a number (finite or infinite; the numbers are totally ordered) or a NaN. Every
  comparison with a NaN is false, \<open>NaN \<le> NaN\<close> among them.
\<close>

datatype 'a floating = NaN | Num 'a

instantiation floating :: (ord) ord
begin

definition less_eq_floating :: "'a floating \<Rightarrow> 'a floating \<Rightarrow> bool" where
  "less_eq_floating x y = (case (x, y) of (Num a, Num b) \<Rightarrow> a \<le> b | _ \<Rightarrow> False)"

definition less_floating :: "'a floating \<Rightarrow> 'a floating \<Rightarrow> bool" where
  "less_floating x y = (case (x, y) of (Num a, Num b) \<Rightarrow> a < b | _ \<Rightarrow> False)"

instance ..

end

subsection \<open>CalculateCheckSum\<close>

text \<open>
  \<^verbatim>\<open>sum += input[i]\<close> on a \<^verbatim>\<open>uint8_t\<close>: both operands are promoted to \<^verbatim>\<open>int\<close>, added,
  and the result is converted back to eight bits.
\<close>

definition add_assign_u8 :: "u8 \<Rightarrow> u8 \<Rightarrow> u8" where
  "add_assign_u8 acc byte = ucast ((ucast acc :: i32) + (ucast byte :: i32))"

text \<open>
  \<^verbatim>\<open>return sum ^ 0xFF\<close>: the exclusive or is computed on \<^verbatim>\<open>int\<close> and the result converted
  to the return type \<^verbatim>\<open>uint8_t\<close>.
\<close>

definition xor_0xFF :: "u8 \<Rightarrow> u8" where
  "xor_0xFF acc = ucast ((ucast acc :: i32) XOR 0xFF)"

text \<open>
  The loop \<^verbatim>\<open>for (size_t i = 0; i < length; ++i) sum += input[i]\<close>, entered with the
  current \<open>i\<close> and the current \<^verbatim>\<open>sum\<close> (here \<open>acc\<close>: \<open>sum\<close> is a constant of HOL, as
  \<open>length\<close> is, here \<open>len\<close>). The counter is a 64-bit \<^verbatim>\<open>size_t\<close> that stops at \<open>length\<close>,
  below \<open>2 ^ 32\<close>, so it never wraps and is a natural number here. The loop reads memory
  and writes none.
\<close>

function CalculateCheckSum_loop :: "(addr \<rightharpoonup> u8) \<Rightarrow> addr \<Rightarrow> u32 \<Rightarrow> nat \<Rightarrow> u8 \<Rightarrow> fault + u8" where
  "CalculateCheckSum_loop m input len i acc =
     (if i < unat len then
        (case m (input + i) of
           None \<Rightarrow> Inl OutOfBounds
         | Some byte \<Rightarrow> CalculateCheckSum_loop m input len (i + 1) (add_assign_u8 acc byte))
      else Inr acc)"
  by pat_completeness auto
termination
  by (relation "measure (\<lambda>(m, input, len, i, acc). unat len - i)") auto

definition CalculateCheckSum :: "addr \<Rightarrow> u32 \<Rightarrow> 's state \<Rightarrow> fault + u8 \<times> 's state" where
  "CalculateCheckSum input len s =
     (case CalculateCheckSum_loop (mem s) input len 0 0 of
        Inl e \<Rightarrow> Inl e
      | Inr acc \<Rightarrow> Inr (xor_0xFF acc, s))"

text \<open>The buffer at address \<open>p\<close> holds exactly the bytes \<open>b\<close>, in order.\<close>

definition bytes_at :: "(addr \<rightharpoonup> u8) \<Rightarrow> addr \<Rightarrow> u8 list \<Rightarrow> bool" where
  "bytes_at m p b = (map (\<lambda>i. m (p + i)) [0..<length b] = map Some b)"

subsection \<open>Metadata queries\<close>

definition GetPeriod :: "'z ProtocolData_scheme \<Rightarrow> u32" where
  "GetPeriod this = (let CONST_PERIOD = 100 * 1000 in CONST_PERIOD)"

definition GetLength :: "'z ProtocolData_scheme \<Rightarrow> i32" where
  "GetLength this = data_length this"

subsection \<open>Default bodies of the virtual member functions\<close>

text \<open>
  \<^verbatim>\<open>Parse(const uint8_t *, int32_t, SensorType *) const\<close> has an empty body. It is a
  \<^verbatim>\<open>const\<close> member function, so the object is not among its results.
\<close>

definition Parse :: "'z ProtocolData_scheme \<Rightarrow> addr \<Rightarrow> i32 \<Rightarrow> addr \<Rightarrow> 's state \<Rightarrow> fault + 's state" where
  "Parse this bytes len sensor_data s = Inr s"

text \<open>
  The overload with a timestamp calls \<^verbatim>\<open>Parse(bytes, length, sensor_data)\<close> on \<^verbatim>\<open>this\<close>.
  That call is virtual: it runs the three-argument \<open>Parse\<close> of the object's dynamic type,
  which is the first argument here (\<open>Parse\<close> itself for an object of the base class).
\<close>

definition Parse_timestamp ::
  "('o \<Rightarrow> addr \<Rightarrow> i32 \<Rightarrow> addr \<Rightarrow> 's state \<Rightarrow> fault + 's state) \<Rightarrow>
   'o \<Rightarrow> addr \<Rightarrow> i32 \<Rightarrow> timeval \<Rightarrow> addr \<Rightarrow> 's state \<Rightarrow> fault + 's state" where
  "Parse_timestamp Parse_virtual this bytes len timestamp sensor_data s =
     Parse_virtual this bytes len sensor_data s"

text \<open>
  \<^verbatim>\<open>UpdateData(uint8_t *)\<close> and \<^verbatim>\<open>Reset()\<close> are not \<^verbatim>\<open>const\<close>: they return the object
  as they leave it, next to the state.
\<close>

definition UpdateData :: "'z ProtocolData_scheme \<Rightarrow> addr \<Rightarrow> 's state \<Rightarrow> fault + 'z ProtocolData_scheme \<times> 's state" where
  "UpdateData this data s = Inr (this, s)"

definition Reset :: "'z ProtocolData_scheme \<Rightarrow> 's state \<Rightarrow> fault + 'z ProtocolData_scheme \<times> 's state" where
  "Reset this s = Inr (this, s)"


subsection \<open>Concrete states\<close>

text \<open>
  A state whose memory holds the two bytes 0x01, 0x02 at address 0, and one that holds the
  same two bytes at address 10, followed by another byte.
\<close>

definition frame_at_0 :: "unit state" where
  "frame_at_0 = \<lparr> mem = [0 \<mapsto> 1, 1 \<mapsto> 2], sensors = Map.empty \<rparr>"

definition frame_at_10 :: "unit state" where
  "frame_at_10 = \<lparr> mem = [10 \<mapsto> 1, 11 \<mapsto> 2, 12 \<mapsto> 9], sensors = Map.empty \<rparr>"

section \<open>Properties\<close>

subsection \<open>Integer promotion\<close>

text \<open>The detour through \<^verbatim>\<open>int\<close> changes nothing: both operations are the 8-bit ones.\<close>

lemma add_assign_u8_eq: "add_assign_u8 a b = a + b"
proof -
  have "unat (add_assign_u8 a b) = ((unat a + unat b) mod 2 ^ 32) mod 2 ^ 8"
    unfolding add_assign_u8_def
    by (simp add: unsigned_ucast_eq unat_word_ariths take_bit_eq_mod mod_add_eq)
  also have "\<dots> = (unat a + unat b) mod 2 ^ 8"
    by (simp add: mod_mod_cancel)
  also have "\<dots> = unat (a + b)"
    by (simp add: unat_word_ariths)
  finally show ?thesis
    by (simp add: word_unat_eq_iff)
qed

lemma xor_0xFF_eq: "xor_0xFF a = a XOR 0xFF"
  unfolding xor_0xFF_def
  by (rule bit_word_eqI) (auto simp: bit_simps)

lemma xor_0xFF_complement: "xor_0xFF a = NOT a"
proof -
  have "(0xFF :: u8) = - 1"
    by simp
  then show ?thesis
    by (simp only: xor_0xFF_eq bit.xor_one_right)
qed

lemma unat_xor_0xFF: "unat (xor_0xFF a) = unat a XOR 255"
  by (simp add: xor_0xFF_eq unsigned_xor_eq)

lemma add_xor_0xFF: "a + xor_0xFF a = 0xFF"
  by (simp add: xor_0xFF_complement not_eq_complement)

subsection \<open>Sums of bytes\<close>

lemma unat_sum_list: "unat (sum_list b :: u8) = sum_list (map unat b) mod 256"
  by (induction b) (simp_all add: unat_word_ariths mod_add_right_eq)

lemma bytes_at_nth:
  assumes "bytes_at m p b" and "i < length b"
  shows "m (p + i) = Some (b ! i)"
proof -
  from assms(1) have "map (\<lambda>i. m (p + i)) [0..<length b] ! i = map Some b ! i"
    by (simp add: bytes_at_def)
  with assms(2) show ?thesis
    by simp
qed

lemma window_nth:
  assumes "map f [0..<k] = map g [0..<k]" and "j < k"
  shows "f j = (g j :: 'b)"
  using assms by simp

subsection \<open>The loop\<close>

declare CalculateCheckSum_loop.simps [simp del]

lemma loop_exit:
  "\<not> i < unat len \<Longrightarrow> CalculateCheckSum_loop m input len i acc = Inr acc"
  by (subst CalculateCheckSum_loop.simps) simp

lemma loop_fault:
  "i < unat len \<Longrightarrow> m (input + i) = None \<Longrightarrow>
   CalculateCheckSum_loop m input len i acc = Inl OutOfBounds"
  by (subst CalculateCheckSum_loop.simps) simp

lemma loop_step:
  "i < unat len \<Longrightarrow> m (input + i) = Some byte \<Longrightarrow>
   CalculateCheckSum_loop m input len i acc =
     CalculateCheckSum_loop m input len (i + 1) (acc + byte)"
  by (subst CalculateCheckSum_loop.simps) (simp add: add_assign_u8_eq)

text \<open>From \<open>i\<close> on, the loop adds the bytes that are left to the sum it was entered with.\<close>

lemma loop_sum:
  "bytes_at m input b \<Longrightarrow> length b = unat len \<Longrightarrow> i \<le> length b \<Longrightarrow>
   CalculateCheckSum_loop m input len i acc = Inr (acc + sum_list (drop i b))"
proof (induction m input len i acc rule: CalculateCheckSum_loop.induct)
  case (1 m input len i acc)
  show ?case
  proof (cases "i < unat len")
    case True
    with "1.prems" have rd: "m (input + i) = Some (b ! i)"
      by (simp add: bytes_at_nth)
    from True "1.prems" have "i + 1 \<le> length b"
      by simp
    with "1.IH" [OF True rd] "1.prems"
    have "CalculateCheckSum_loop m input len (i + 1) (add_assign_u8 acc (b ! i)) =
            Inr (add_assign_u8 acc (b ! i) + sum_list (drop (i + 1) b))"
      by simp
    moreover from True "1.prems" have "drop i b = b ! i # drop (i + 1) b"
      by (simp add: Cons_nth_drop_Suc)
    ultimately show ?thesis
      using True rd by (simp add: loop_step add_assign_u8_eq add.assoc)
  next
    case False
    with "1.prems" show ?thesis
      by (simp add: loop_exit)
  qed
qed

text \<open>The loop reads the addresses \<open>input + i\<close>, \<open>\<dots>\<close>, \<open>input + length - 1\<close> and no other.\<close>

lemma loop_window:
  "(\<And>j. i \<le> j \<Longrightarrow> j < unat len \<Longrightarrow> m (input + j) = m' (input' + j)) \<Longrightarrow>
   CalculateCheckSum_loop m input len i acc = CalculateCheckSum_loop m' input' len i acc"
proof (induction m input len i acc rule: CalculateCheckSum_loop.induct)
  case (1 m input len i acc)
  show ?case
  proof (cases "i < unat len")
    case True
    with "1.prems" have same: "m (input + i) = m' (input' + i)"
      by simp
    show ?thesis
    proof (cases "m (input + i)")
      case None
      with True same show ?thesis
        by (simp add: loop_fault)
    next
      case (Some byte)
      have "CalculateCheckSum_loop m input len (i + 1) (add_assign_u8 acc byte) =
              CalculateCheckSum_loop m' input' len (i + 1) (add_assign_u8 acc byte)"
        using "1.IH" [OF True Some] "1.prems" by simp
      with True Some same show ?thesis
        by (simp add: loop_step add_assign_u8_eq)
    qed
  next
    case False
    then show ?thesis
      by (simp add: loop_exit)
  qed
qed

lemma CalculateCheckSum_bytes:
  assumes "bytes_at (mem s) input b" and "length b = unat n"
  shows "CalculateCheckSum input n s = Inr (xor_0xFF (sum_list b), s)"
  using loop_sum [OF assms, of 0 0] by (simp add: CalculateCheckSum_def)

lemma CalculateCheckSum_cases:
  "CalculateCheckSum input n s = Inl OutOfBounds \<or>
   (\<exists>r. CalculateCheckSum input n s = Inr (r, s))"
proof (cases "CalculateCheckSum_loop (mem s) input n 0 0")
  case (Inl e)
  then show ?thesis
    by (cases e) (simp add: CalculateCheckSum_def)
next
  case (Inr acc)
  then show ?thesis
    by (simp add: CalculateCheckSum_def)
qed

subsection \<open>Comparisons of floating-point values\<close>

lemma Num_le_Num: "Num a \<le> Num b \<longleftrightarrow> a \<le> b"
  by (simp add: less_eq_floating_def)

lemma Num_less_Num: "Num a < Num b \<longleftrightarrow> a < b"
  by (simp add: less_floating_def)

lemma NaN_unordered: "\<not> NaN \<le> x" "\<not> x \<le> NaN" "\<not> NaN < x" "\<not> x < NaN"
  by (simp_all add: less_eq_floating_def less_floating_def split: floating.splits)

text \<open>On a totally ordered type the result is in the interval, with the value of each case.\<close>

lemma BoundedValue_total:
  fixes lower upper val :: "'a::linorder"
  assumes "lower \<le> upper"
  shows "lower \<le> BoundedValue lower upper val \<and> BoundedValue lower upper val \<le> upper \<and>
         (val < lower \<longrightarrow> BoundedValue lower upper val = lower) \<and>
         (val > upper \<longrightarrow> BoundedValue lower upper val = upper) \<and>
         (lower \<le> val \<and> val \<le> upper \<longrightarrow> BoundedValue lower upper val = val)"
  using assms by (auto simp: BoundedValue_def)

text \<open>On numbers, \<open>BoundedValue\<close> at a floating-point type is the one of the numbers.\<close>

lemma BoundedValue_Num:
  "BoundedValue (Num lower) (Num upper) (Num val) = Num (BoundedValue lower upper val)"
  by (simp add: BoundedValue_def Num_less_Num)

text \<open>A NaN passes the three tests, whatever the bounds are.\<close>

lemma BoundedValue_NaN: "BoundedValue lower upper NaN = NaN"
  by (simp add: BoundedValue_def NaN_unordered)

text \<open>Bounds in order are numbers.\<close>

lemma le_floatingE:
  assumes "x \<le> (y :: 'a::ord floating)"
  obtains a b where "x = Num a" and "y = Num b" and "a \<le> b"
  using assms by (cases x; cases y) (simp_all add: NaN_unordered Num_le_Num)

section \<open>The claims\<close>

text \<open>
  C1. For every byte sequence \<open>b\<close> of length \<open>n\<close> that \<open>input\<close> points to,
  \<open>CalculateCheckSum(input, n)\<close> returns the arithmetic sum of the \<open>n\<close> bytes modulo 256,
  exclusive-or 0xFF, and leaves the state as it was.
\<close>

theorem CalculateCheckSum_sum_xor:
  assumes "bytes_at (mem s) input b" and "length b = unat n"
  shows "\<exists>r. CalculateCheckSum input n s = Inr (r, s) \<and>
             unat r = (sum_list (map unat b) mod 256) XOR 255"
  using CalculateCheckSum_bytes [OF assms]
  by (simp add: unat_xor_0xFF unat_sum_list)

text \<open>The example of the specification: for the bytes 0x01, 0x02 the sum is 3 and the result 0xFC.\<close>

theorem CalculateCheckSum_sum_xor_witness:
  "bytes_at (mem frame_at_0) 0 [0x01, 0x02] \<and> length [0x01, 0x02 :: u8] = unat (2 :: u32) \<and>
   (\<exists>r. CalculateCheckSum 0 2 frame_at_0 = Inr (r, frame_at_0) \<and> unat r = 0xFC)"
proof -
  have h1: "bytes_at (mem frame_at_0) 0 [0x01, 0x02]"
    by (simp add: bytes_at_def frame_at_0_def)
  have h2: "length [0x01, 0x02 :: u8] = unat (2 :: u32)"
    by simp
  from CalculateCheckSum_sum_xor [OF h1 h2] h1 h2 show ?thesis
    by simp
qed

text \<open>
  C2. For \<open>lower \<le> upper\<close>, \<open>BoundedValue(lower, upper, val)\<close> is \<open>lower\<close> when
  \<open>val < lower\<close>, \<open>upper\<close> when \<open>val > upper\<close>, and \<open>val\<close> when \<open>val\<close> is in the closed
  interval from \<open>lower\<close> to \<open>upper\<close>. It lies in that interval for every \<open>val\<close> of a totally
  ordered type (the integer types), and for every \<open>val\<close> of a floating-point type that is
  not a NaN.
\<close>

theorem BoundedValue_clamps:
  fixes lower upper val :: "'a::linorder"
    and flower fupper fval :: "'b::linorder floating"
  shows "(lower \<le> upper \<longrightarrow>
            lower \<le> BoundedValue lower upper val \<and> BoundedValue lower upper val \<le> upper \<and>
            (val < lower \<longrightarrow> BoundedValue lower upper val = lower) \<and>
            (val > upper \<longrightarrow> BoundedValue lower upper val = upper) \<and>
            (lower \<le> val \<and> val \<le> upper \<longrightarrow> BoundedValue lower upper val = val)) \<and>
         (flower \<le> fupper \<longrightarrow>
            (fval \<noteq> NaN \<longrightarrow>
               flower \<le> BoundedValue flower fupper fval \<and>
               BoundedValue flower fupper fval \<le> fupper) \<and>
            (fval < flower \<longrightarrow> BoundedValue flower fupper fval = flower) \<and>
            (fval > fupper \<longrightarrow> BoundedValue flower fupper fval = fupper) \<and>
            (flower \<le> fval \<and> fval \<le> fupper \<longrightarrow> BoundedValue flower fupper fval = fval))"
proof (intro conjI impI)
  assume "flower \<le> fupper"
  then obtain a b where ab: "flower = Num a" "fupper = Num b" "a \<le> b"
    by (rule le_floatingE)
  show "fval < flower \<Longrightarrow> BoundedValue flower fupper fval = flower"
    using ab by (cases fval) (auto simp: BoundedValue_def Num_less_Num NaN_unordered)
  show "fval > fupper \<Longrightarrow> BoundedValue flower fupper fval = fupper"
    using ab by (cases fval) (auto simp: BoundedValue_def Num_less_Num NaN_unordered)
  show "flower \<le> fval \<and> fval \<le> fupper \<Longrightarrow> BoundedValue flower fupper fval = fval"
    using ab by (cases fval) (auto simp: BoundedValue_def Num_less_Num Num_le_Num NaN_unordered)
  assume "fval \<noteq> NaN"
  then obtain v where v: "fval = Num v"
    by (cases fval) simp_all
  from BoundedValue_total [OF ab(3), of v]
  show "flower \<le> BoundedValue flower fupper fval" and "BoundedValue flower fupper fval \<le> fupper"
    by (simp_all add: ab v BoundedValue_Num Num_le_Num)
qed (simp_all add: BoundedValue_total)

text \<open>
  The three examples of the specification, one for each case, on integers and on
  floating-point numbers.
\<close>

theorem BoundedValue_clamps_witness:
  "((0 :: int) \<le> 10 \<and>
    ((15 :: int) > 10 \<and> BoundedValue 0 10 (15 :: int) = 10) \<and>
    ((- 5 :: int) < 0 \<and> BoundedValue 0 10 (- 5 :: int) = 0) \<and>
    ((0 :: int) \<le> 5 \<and> (5 :: int) \<le> 10 \<and> BoundedValue 0 10 (5 :: int) = 5)) \<and>
   (Num (0 :: real) \<le> Num 10 \<and>
    (Num (15 :: real) \<noteq> NaN \<and> Num (15 :: real) > Num 10 \<and>
       BoundedValue (Num 0) (Num 10) (Num (15 :: real)) = Num 10 \<and>
       Num 0 \<le> BoundedValue (Num 0) (Num 10) (Num (15 :: real)) \<and>
       BoundedValue (Num 0) (Num 10) (Num (15 :: real)) \<le> Num 10) \<and>
    (Num (- 5 :: real) < Num 0 \<and> BoundedValue (Num 0) (Num 10) (Num (- 5 :: real)) = Num 0) \<and>
    (Num (0 :: real) \<le> Num 5 \<and> Num (5 :: real) \<le> Num 10 \<and>
       BoundedValue (Num 0) (Num 10) (Num (5 :: real)) = Num 5))"
proof -
  note ex = BoundedValue_clamps [where lower = "0 :: int" and upper = 10
      and flower = "Num (0 :: real)" and fupper = "Num 10"]
  from ex [where val = 15 and fval = "Num 15"] ex [where val = "- 5" and fval = "Num (- 5)"]
    ex [where val = 5 and fval = "Num 5"]
  show ?thesis
    by (simp add: Num_le_Num Num_less_Num)
qed

text \<open>
  As the claim words it, for every value, it fails at a NaN: with the bounds 0.0 and 10.0
  in order, a NaN is below neither bound and above neither, so it is returned, and it is
  not in the interval.
\<close>

theorem BoundedValue_clamps_counterexample:
  "Num (0 :: real) \<le> Num 10 \<and>
   BoundedValue (Num (0 :: real)) (Num 10) NaN = NaN \<and>
   \<not> (Num (0 :: real) \<le> BoundedValue (Num 0) (Num 10) NaN \<and>
      BoundedValue (Num (0 :: real)) (Num 10) NaN \<le> Num 10)"
  by (simp add: BoundedValue_def less_eq_floating_def less_floating_def)

text \<open>
  C3. If \<open>lower > upper\<close> then \<open>BoundedValue(lower, upper, val)\<close> is \<open>val\<close>, whatever
  \<open>val\<close> is: the call does not fail. This needs nothing of the comparison.
\<close>

theorem BoundedValue_passthrough:
  fixes lower upper val :: "'a::ord"
  assumes "lower > upper"
  shows "BoundedValue lower upper val = val"
  using assms by (simp add: BoundedValue_def)

theorem BoundedValue_passthrough_witness:
  "(10 :: int) > 0 \<and> BoundedValue 10 0 (7 :: int) = 7"
proof -
  have h: "(10 :: int) > 0"
    by simp
  from BoundedValue_passthrough [OF h, of 7] h show ?thesis
    by simp
qed

text \<open>
  C4. \<open>CalculateCheckSum\<close> with length 0 returns 0xFF, whatever the pointer is and
  whatever the memory holds: nothing is read.
\<close>

theorem CalculateCheckSum_empty:
  "CalculateCheckSum input 0 s = Inr (0xFF, s)"
  by (simp add: CalculateCheckSum_def loop_exit xor_0xFF_eq)

text \<open>
  C5. On an object of the base class, \<open>GetPeriod()\<close> returns 100000 (microseconds) and
  \<open>GetLength()\<close> returns 8, the payload size of a CAN frame.
\<close>

theorem default_period_and_length:
  "GetPeriod ProtocolData_default = 100000 \<and> unat (GetPeriod ProtocolData_default) = 100000 \<and>
   GetLength ProtocolData_default = 8 \<and> sint (GetLength ProtocolData_default) = 8"
  by (simp add: GetPeriod_def GetLength_def ProtocolData_default_def CANBUS_MESSAGE_LENGTH_def)

text \<open>
  C6. The default \<open>Parse\<close> (with and without a timestamp), \<open>UpdateData\<close> and \<open>Reset\<close>
  return without a fault and leave the output record, the memory and the object as they
  were, for every pointer and every length, zero among them.
\<close>

theorem default_bodies_inert:
  "Parse this bytes len sensor_data s = Inr s \<and>
   Parse this bytes 0 sensor_data s = Inr s \<and>
   Parse_timestamp Parse this bytes len timestamp sensor_data s = Inr s \<and>
   UpdateData this data s = Inr (this, s) \<and>
   Reset this s = Inr (this, s)"
  by (simp add: Parse_def Parse_timestamp_def UpdateData_def Reset_def)

text \<open>
  C7. The default \<open>Parse\<close> with a timestamp gives what the \<open>Parse\<close> without one gives on
  the same bytes, length and output record, whichever three-argument \<open>Parse\<close> the object
  has (the one of the base class among them); the timestamp has no influence.
\<close>

theorem Parse_timestamp_delegates:
  "Parse_timestamp Parse_virtual obj bytes len timestamp sensor_data s =
     Parse_virtual obj bytes len sensor_data s \<and>
   Parse_timestamp Parse this bytes len timestamp sensor_data s =
     Parse this bytes len sensor_data s \<and>
   Parse_timestamp Parse_virtual obj bytes len timestamp sensor_data s =
     Parse_timestamp Parse_virtual obj bytes len timestamp' sensor_data s"
  by (simp add: Parse_timestamp_def)

text \<open>
  C8. \<open>CalculateCheckSum\<close> and \<open>BoundedValue\<close> are pure and deterministic.
  \<open>CalculateCheckSum\<close> leaves the state as it was, and two calls with the same length on
  buffers that hold the same bytes end the same way (the same value, or both at a fault),
  whatever else the two states hold. \<open>BoundedValue\<close> takes its arguments by value and has
  no access to the state: equal arguments give equal results.
\<close>

theorem helpers_pure:
  assumes "map (\<lambda>i. mem s (input + i)) [0..<unat n] = map (\<lambda>i. mem s' (input' + i)) [0..<unat n]"
  shows "((CalculateCheckSum input n s = Inl OutOfBounds \<and>
           CalculateCheckSum input' n s' = Inl OutOfBounds) \<or>
          (\<exists>r. CalculateCheckSum input n s = Inr (r, s) \<and>
                CalculateCheckSum input' n s' = Inr (r, s'))) \<and>
         ((lower, upper, val) = (lower', upper', val') \<longrightarrow>
            BoundedValue lower upper val = BoundedValue lower' upper' val')"
proof -
  have "CalculateCheckSum_loop (mem s) input n 0 0 = CalculateCheckSum_loop (mem s') input' n 0 0"
    by (rule loop_window) (rule window_nth [OF assms])
  then have "map_sum id fst (CalculateCheckSum input n s) =
             map_sum id fst (CalculateCheckSum input' n s')"
    by (simp add: CalculateCheckSum_def split: sum.splits)
  with CalculateCheckSum_cases [of input n s] CalculateCheckSum_cases [of input' n s']
  show ?thesis
    by auto
qed

text \<open>
  The same two bytes at address 0 of one state and at address 10 of another, where a
  third byte follows them.
\<close>

theorem helpers_pure_witness:
  "map (\<lambda>i. mem frame_at_0 (0 + i)) [0..<unat (2 :: u32)] =
     map (\<lambda>i. mem frame_at_10 (10 + i)) [0..<unat (2 :: u32)] \<and>
   ((CalculateCheckSum 0 2 frame_at_0 = Inl OutOfBounds \<and>
     CalculateCheckSum 10 2 frame_at_10 = Inl OutOfBounds) \<or>
    (\<exists>r. CalculateCheckSum 0 2 frame_at_0 = Inr (r, frame_at_0) \<and>
          CalculateCheckSum 10 2 frame_at_10 = Inr (r, frame_at_10))) \<and>
   BoundedValue (0 :: int) 10 15 = BoundedValue 0 10 15"
proof -
  have h: "map (\<lambda>i. mem frame_at_0 (0 + i)) [0..<unat (2 :: u32)] =
             map (\<lambda>i. mem frame_at_10 (10 + i)) [0..<unat (2 :: u32)]"
    by (simp add: frame_at_0_def frame_at_10_def upt_rec)
  from helpers_pure [OF h, of "0 :: int" 10 15 0 10 15] h show ?thesis
    by blast
qed

text \<open>
  C9. For every byte sequence \<open>b\<close> of length \<open>n\<close>, the sum of the bytes plus
  \<open>CalculateCheckSum(b, n)\<close> is 0xFF modulo 256; so a frame that ends in the checksum of
  the bytes before it sums to 0xFF modulo 256.
\<close>

theorem checksum_verification:
  assumes "bytes_at (mem s) input b" and "length b = unat n"
  shows "\<exists>r. CalculateCheckSum input n s = Inr (r, s) \<and>
             (sum_list (map unat b) + unat r) mod 256 = 0xFF \<and>
             sum_list (map unat (b @ [r])) mod 256 = 0xFF"
proof -
  let ?r = "xor_0xFF (sum_list b)"
  have "(sum_list (map unat b) + unat ?r) mod 256 = (unat (sum_list b) + unat ?r) mod 256"
    by (simp add: unat_sum_list mod_add_left_eq)
  also have "\<dots> = unat (sum_list b + ?r)"
    by (simp add: unat_word_ariths)
  also have "\<dots> = 0xFF"
    by (simp add: add_xor_0xFF)
  finally have "(sum_list (map unat b) + unat ?r) mod 256 = 0xFF" .
  with CalculateCheckSum_bytes [OF assms] show ?thesis
    by simp
qed

theorem checksum_verification_witness:
  "bytes_at (mem frame_at_0) 0 [0x01, 0x02] \<and> length [0x01, 0x02 :: u8] = unat (2 :: u32) \<and>
   (\<exists>r. CalculateCheckSum 0 2 frame_at_0 = Inr (r, frame_at_0) \<and>
        (sum_list (map unat [0x01, 0x02 :: u8]) + unat r) mod 256 = 0xFF \<and>
        sum_list (map unat ([0x01, 0x02] @ [r])) mod 256 = 0xFF)"
proof -
  have h1: "bytes_at (mem frame_at_0) 0 [0x01, 0x02]"
    by (simp add: bytes_at_def frame_at_0_def)
  have h2: "length [0x01, 0x02 :: u8] = unat (2 :: u32)"
    by simp
  from checksum_verification [OF h1 h2] h1 h2 show ?thesis
    by blast
qed

text \<open>
  C10. \<open>BoundedValue\<close> is idempotent, for every \<open>lower\<close>, \<open>upper\<close> and \<open>val\<close>, also when
  \<open>lower > upper\<close>. This needs nothing of the comparison.
\<close>

theorem BoundedValue_idempotent:
  fixes lower upper val :: "'a::ord"
  shows "BoundedValue lower upper (BoundedValue lower upper val) = BoundedValue lower upper val"
  by (simp add: BoundedValue_def)

end
